theory Spec2Isabelle
  imports Main "HOL-Library.Sublist"
begin

section \<open>Python strings\<close>

text \<open>
  A Python \<open>str\<close> is modelled by its UTF-8 encoding, a \<open>string\<close> (list of bytes).
  Every pattern the program searches for (\<open>json\<close>, three backticks, \<open>source-\<close>) is
  ASCII, and an ASCII byte never occurs inside the encoding of another code point, so
  concatenation and \<open>str.replace\<close> act on the bytes exactly as they act on the code
  points. The only character of the program text outside ASCII is U+2019, the right
  single quotation mark; \<open>\r\n\<close> in a literal is the pair carriage return, line
  feed.
\<close>

definition rsquo :: string where
  "rsquo = [CHR 0xE2, CHR 0x80, CHR 0x99]"

definition nl :: string where
  "nl = [CHR 0x0A]"

definition crlf :: string where
  "crlf = [CHR 0x0D, CHR 0x0A]"

definition dquote :: string where
  "dquote = [CHR 0x22]"

definition squote :: string where
  "squote = [CHR 0x27]"

definition backtick :: string where
  "backtick = [CHR 0x60]"

text \<open>
  \<open>s.replace(old, new)\<close> is \<open>replace old new s\<close>: one scan from the left; at each
  position where \<open>old\<close> starts, \<open>new\<close> is emitted and the scan resumes after the
  occurrence, so the occurrences replaced do not overlap and the text emitted is not
  scanned again. With an empty \<open>old\<close>, Python puts \<open>new\<close> before every character and at
  the end.
\<close>

function replace :: "string \<Rightarrow> string \<Rightarrow> string \<Rightarrow> string" where
  "replace old new [] = (if old = [] then new else [])"
| "replace old new (c # cs) =
     (if old = [] then new @ c # replace old new cs
      else if prefix old (c # cs) then new @ replace old new (drop (length old) (c # cs))
      else c # replace old new cs)"
  by pat_completeness auto
termination
  by (relation "measure (\<lambda>(old, new, s). length s)") auto

text \<open>Python's \<open>str(n)\<close> for an integer: decimal digits, with a minus sign when negative.\<close>

definition digit_char :: "nat \<Rightarrow> char" where
  "digit_char d = char_of (48 + d)"

function str_nat :: "nat \<Rightarrow> string" where
  "str_nat n = (if n < 10 then [digit_char n] else str_nat (n div 10) @ [digit_char (n mod 10)])"
  by pat_completeness auto
termination
  by (relation "measure id") auto

definition str_int :: "int \<Rightarrow> string" where
  "str_int i = (if i < 0 then ''-'' @ str_nat (nat (- i)) else str_nat (nat i))"

section \<open>Exceptions, optional strings, dictionaries\<close>

text \<open>
  An exception is a value. \<open>LibraryError\<close> stands for whatever an external library or
  the operating system raises (the model API client, the connector library, \<open>requests\<close>,
  \<open>open\<close>); the other three are raised by the Python of the program itself.
\<close>

datatype exn = KeyError string | TypeError | AttributeError | LibraryError string

text \<open>
  A value that is a \<open>str\<close> or \<open>None\<close> (the \<open>content\<close> of a chat message, the result of
  \<open>os.getenv\<close>) is a \<open>string option\<close>. In an f-string \<open>None\<close> is formatted as the text
  \<open>None\<close>; as an operand of \<open>+\<close> with a \<open>str\<close> it raises \<open>TypeError\<close>.
\<close>

definition format_optional :: "string option \<Rightarrow> string" where
  "format_optional v = (case v of None \<Rightarrow> ''None'' | Some s \<Rightarrow> s)"

text \<open>\<open>d[k]\<close> on a dictionary: \<open>KeyError\<close> when the key is absent.\<close>

definition getitem :: "(string \<rightharpoonup> 'a) \<Rightarrow> string \<Rightarrow> exn + 'a" where
  "getitem d k = (case d k of None \<Rightarrow> Inl (KeyError k) | Some v \<Rightarrow> Inr v)"

text \<open>
  The leftmost operand of a chain of \<open>+\<close> that starts with a \<open>str\<close> or \<open>None\<close>, and one
  further \<open>+ r\<close>: the left operand is evaluated first, then the right one, then the
  addition, which raises \<open>TypeError\<close> on \<open>None\<close>.
\<close>

definition str_operand :: "exn + string option \<Rightarrow> exn + string" where
  "str_operand l = (case l of Inl e \<Rightarrow> Inl e | Inr None \<Rightarrow> Inl TypeError | Inr (Some a) \<Rightarrow> Inr a)"

definition str_add :: "exn + string \<Rightarrow> exn + string option \<Rightarrow> exn + string" where
  "str_add l r =
     (case l of
        Inl e \<Rightarrow> Inl e
      | Inr a \<Rightarrow>
          (case r of
             Inl e \<Rightarrow> Inl e
           | Inr None \<Rightarrow> Inl TypeError
           | Inr (Some b) \<Rightarrow> Inr (a @ b)))"

section \<open>Data of the program\<close>

text \<open>A chat message \<open>{"role": ..., "content": ...}\<close>.\<close>

record message =
  role :: string
  content :: "string option"

text \<open>
  An entry of the catalog \<open>sources\<close> (imported from a module that is not part of the
  sources at hand): a dictionary with the keys \<open>original\<close> and \<open>formatted\<close>. The catalog is
  a parameter of the program below.
\<close>

record source_connector =
  original :: string
  formatted :: string

text \<open>
  The JSON body of the CMS request; the keys \<open>seo-title-tag\<close>, \<open>seo-meta-description\<close>,
  \<open>publish-date\<close>, \<open>time-to-read\<close> and \<open>post-body\<close> are written with underscores.
\<close>

record field_data =
  name :: string
  slug :: string
  seo_title_tag :: string
  seo_meta_description :: string
  publish_date :: string
  time_to_read :: string
  post_body :: string

record blog_post_data =
  isArchived :: bool
  isDraft :: bool
  fieldData :: field_data

record http_request =
  req_url :: string
  req_json :: blog_post_data
  req_headers :: "(string \<times> string) list"

section \<open>The outside world\<close>

text \<open>
  The program talks to a model API, a connector library, a file system and a CMS. Their
  behaviour is a parameter: a record of functions over a hidden state \<open>'x\<close> of the
  outside world, each returning its answer (or the exception it raises) and the next
  hidden state. Nothing is assumed about them, so the model API may answer the same
  request differently each time.
  \<^item> \<open>OpenAI key\<close>: the constructor \<open>openai.OpenAI(api_key=key)\<close>;
  \<^item> \<open>get_source connector\<close>: \<open>ab.get_source(connector).config_spec\<close>, as the text an
    f-string makes of it;
  \<^item> \<open>chat_api model messages\<close>: \<open>client.chat.completions.create(model=..., messages=...)\<close>
    followed by \<open>.choices[0].message.content\<close>, a \<open>str\<close> or \<open>None\<close>;
  \<^item> \<open>open_w filename\<close>: \<open>open(filename, "w", encoding="utf-8")\<close>;
  \<^item> \<open>file_write filename text\<close>: \<open>file.write(text)\<close> and the closing of the file;
  \<^item> \<open>requests_post request\<close>: \<open>requests.post(url, json=..., headers=...)\<close>, giving
    \<open>response.status_code\<close> and \<open>response.text\<close>.
\<close>

record 'x services =
  OpenAI :: "string option \<Rightarrow> 'x \<Rightarrow> exn option \<times> 'x"
  get_source :: "string \<Rightarrow> 'x \<Rightarrow> (exn + string) \<times> 'x"
  chat_api :: "string \<Rightarrow> message list \<Rightarrow> 'x \<Rightarrow> (exn + string option) \<times> 'x"
  open_w :: "string \<Rightarrow> 'x \<Rightarrow> exn option \<times> 'x"
  file_write :: "string \<Rightarrow> string \<Rightarrow> 'x \<Rightarrow> exn option \<times> 'x"
  requests_post :: "http_request \<Rightarrow> 'x \<Rightarrow> (exn + int \<times> string) \<times> 'x"

text \<open>
  What the program has done so far is kept beside the hidden state: the requests sent to
  the model API (in order), the contents of the files by path, the requests sent to the
  CMS (in order) and the lines printed.
\<close>

record 'x world =
  ext :: 'x
  chat_log :: "message list list"
  files :: "string \<rightharpoonup> string"
  http_log :: "http_request list"
  stdout :: "string list"

text \<open>The process environment after \<open>load_dotenv()\<close>; \<open>os.getenv(k)\<close> is \<open>env k\<close>.\<close>

type_synonym environ = "string \<rightharpoonup> string"

section \<open>The program\<close>

subsection \<open>\<open>create_code_example\<close>\<close>

definition chat_completions_create ::
  "'x services \<Rightarrow> string \<Rightarrow> message list \<Rightarrow> 'x world \<Rightarrow> (exn + string option) \<times> 'x world" where
  "chat_completions_create svc model messages w =
     (case chat_api svc model messages (ext w) of
        (r, x) \<Rightarrow> (r, w\<lparr>ext := x, chat_log := chat_log w @ [messages]\<rparr>))"

definition code_example_prompt :: "string \<Rightarrow> string" where
  "code_example_prompt config_spec =
     ''Generate an example configuration based on the following JSON spec. '' @
     ''Provide only the configuration, without explanations: '' @ config_spec"

definition snippet_text :: "string \<Rightarrow> string \<Rightarrow> string" where
  "snippet_text connector config =
     ''pip install airbyte'' @ nl @ nl @ ''            import airbyte as ab'' @ nl @
     nl @ ''            # Create and configure the source connector, don'' @ squote @
     ''t forget to use your own values in the config:'' @ nl @
     ''            source = ab.get_source('' @ nl @
     ''                '' @ connector @ '','' @ nl @
     ''                install_if_missing=True,'' @ nl @
     ''                config='' @ config @ nl @
     ''            )'' @ nl @ nl @ ''            # Verify the config and credentials:'' @
     nl @ ''            source.check()'' @ nl @
     nl @ ''            # List the available streams available for the '' @ connector @
     '' connector:'' @ nl @ ''            source.get_available_streams()'' @ nl @
     nl @
     ''            # Select all streams to load to cache. You can also select '' @
     ''some of them with the '' @ backtick @ ''select_streams()'' @ backtick @
     '' method.'' @ nl @ ''            source.select_all_streams()'' @ nl @
     nl @
     ''            # Read into DuckDB local default cache. You could also use a '' @
     ''custom cache here (Postgres, Snowflake, BigQuery, etc.)'' @ nl @
     ''            cache = ab.get_default_cache()'' @ nl @
     ''            result = source.read(cache=cache)'' @ nl @
     nl @
     ''            # Read a stream from the cache into a pandas Dataframe, '' @
     ''replace with the stream you'' @ squote @
     ''re interested in. You can also read from the cache into SQL, or documents '' @
     ''(for LLMs).'' @ nl @ ''            df = cache['' @ dquote @ ''your_stream'' @
     dquote @ ''].to_pandas()''"

text \<open>
  \<open>content.replace("json", "").replace("```", "")\<close>; on a \<open>None\<close> content the method call
  raises \<open>AttributeError\<close>.
\<close>

definition strip_fences :: "string \<Rightarrow> string" where
  "strip_fences response_content =
     replace (backtick @ backtick @ backtick) [] (replace ''json'' [] response_content)"

definition create_code_example ::
  "'x services \<Rightarrow> string \<Rightarrow> 'x world \<Rightarrow> (exn + string) \<times> 'x world" where
  "create_code_example svc connector w =
     (case get_source svc connector (ext w) of
        (Inl e, x) \<Rightarrow> (Inl e, w\<lparr>ext := x\<rparr>)
      | (Inr config_spec, x) \<Rightarrow>
          (let prompt = code_example_prompt config_spec in
           case chat_completions_create svc ''gpt-4-turbo-preview''
                  [\<lparr>role = ''system'', content = Some (''You are a helpful assistant.'')\<rparr>,
                   \<lparr>role = ''user'', content = Some prompt\<rparr>] (w\<lparr>ext := x\<rparr>) of
             (Inl e, w') \<Rightarrow> (Inl e, w')
           | (Inr None, w') \<Rightarrow> (Inl AttributeError, w')
           | (Inr (Some response_content), w') \<Rightarrow>
               (let config = strip_fences response_content
                in (Inr (snippet_text connector config), w'))))"

subsection \<open>\<open>generate_blog_chapter\<close> and \<open>build_blog_post\<close>\<close>

definition system_prompt :: string where
  "system_prompt =
     ''You are a helpful assistant. Use clear, precise language, and limit '' @
     ''pompous words. Use a natural tone. Prioritize substance''"

definition generate_blog_chapter ::
  "'x services \<Rightarrow> string \<Rightarrow> message list \<Rightarrow> 'x world \<Rightarrow> (exn + string option) \<times> 'x world" where
  "generate_blog_chapter svc prompt chat_history w =
     chat_completions_create svc ''gpt-4-turbo-preview''
       ([\<lparr>role = ''system'', content = Some system_prompt\<rparr>] @ chat_history
         @ [\<lparr>role = ''user'', content = Some prompt\<rparr>]) w"

text \<open>
  The \<open>for\<close> loop of \<open>build_blog_post\<close> over \<open>chapter_prompts.items()\<close>. The ordered
  dictionary is the list of its items in insertion order; \<open>conversation_history\<close> and
  \<open>blog_chapters\<close> are mutated in place, so the loop returns them.
\<close>

fun generate_chapters ::
  "'x services \<Rightarrow> (string \<times> string) list \<Rightarrow> message list \<Rightarrow> (string \<rightharpoonup> string option) \<Rightarrow>
     'x world \<Rightarrow> (exn + message list \<times> (string \<rightharpoonup> string option)) \<times> 'x world" where
  "generate_chapters svc [] conversation_history blog_chapters w =
     (Inr (conversation_history, blog_chapters), w)"
| "generate_chapters svc ((chapter, prompt) # rest) conversation_history blog_chapters w =
     (case generate_blog_chapter svc prompt conversation_history w of
        (Inl e, w') \<Rightarrow> (Inl e, w')
      | (Inr text, w') \<Rightarrow>
          generate_chapters svc rest
            (conversation_history @ [\<lparr>role = ''assistant'', content = text\<rparr>])
            (blog_chapters(chapter \<mapsto> text)) w')"

text \<open>The expression assigned to \<open>blog_post\<close>, evaluated from left to right.\<close>

definition assemble_blog_post ::
  "(string \<rightharpoonup> string option) \<Rightarrow> (string \<rightharpoonup> string option) \<Rightarrow> exn + string" where
  "assemble_blog_post blog_chapters ctas =
     str_add (str_add (str_add (str_add (str_add (str_add (str_add (str_add (str_add (str_add
     (str_add (str_add
       (str_operand (getitem blog_chapters ''introduction''))
       (Inr (Some (nl @ nl)))) (getitem blog_chapters ''chapter_1''))
       (Inr (Some (nl @ nl)))) (getitem blog_chapters ''chapter_2''))
       (Inr (Some (nl @ nl)))) (getitem ctas ''docs_quickstarts_cta''))
       (Inr (Some (nl @ nl)))) (getitem blog_chapters ''chapter_3''))
       (Inr (Some (nl @ nl)))) (getitem blog_chapters ''conclusion''))
       (Inr (Some (nl @ nl)))) (getitem ctas ''slack_newsletter_cta'')"

definition build_blog_post ::
  "'x services \<Rightarrow> (string \<times> string) list \<Rightarrow> message list \<Rightarrow> (string \<rightharpoonup> string option) \<Rightarrow>
     (string \<rightharpoonup> string option) \<Rightarrow> 'x world \<Rightarrow>
     (exn + string \<times> message list \<times> (string \<rightharpoonup> string option)) \<times> 'x world" where
  "build_blog_post svc chapter_prompts conversation_history blog_chapters ctas w =
     (case generate_chapters svc chapter_prompts conversation_history blog_chapters w of
        (Inl e, w') \<Rightarrow> (Inl e, w')
      | (Inr (conversation_history', blog_chapters'), w') \<Rightarrow>
          (case assemble_blog_post blog_chapters' ctas of
             Inl e \<Rightarrow> (Inl e, w')
           | Inr blog_post \<Rightarrow> (Inr (blog_post, conversation_history', blog_chapters'), w')))"

subsection \<open>\<open>upload_post_to_webflow\<close>\<close>

definition upload_request :: "environ \<Rightarrow> source_connector \<Rightarrow> string \<Rightarrow> http_request" where
  "upload_request env source_connector blog_post_body =
     (let webflow_api_token = env ''WEBFLOW_API_TOKEN'';
          collection_id = ''66200272dd44bc109a1d8cff'';
          api_url = ''https://api.webflow.com/v2/collections/'' @ collection_id @ ''/items'';
          request_headers =
            [(''Authorization'', ''Bearer '' @ format_optional webflow_api_token),
             (''accept'', ''application/json''),
             (''content-type'', ''application/json'')];
          blog_post_data = \<lparr>
            isArchived = False,
            isDraft = True,
            fieldData = \<lparr>
              name =
                ''How To Create a '' @ original source_connector @
           '' Python Pipeline with PyAirbyte'',
              slug = replace ''source-'' [] (formatted source_connector) @ ''-python'',
              seo_title_tag =
                ''How To Create a '' @ original source_connector @
           '' Python Pipeline with PyAirbyte'',
              seo_meta_description =
                ''Learn how to create a '' @ original source_connector @
           '' Python data pipeline with our easy step-by-step guide. Master the setup '' @
           ''using PyAirbyte to efficiently manage your '' @ original source_connector @
           '' data.'',
              publish_date = ''2024-04-24T12:00:00.000Z'',
              time_to_read = ''10 min read'',
              post_body = blog_post_body\<rparr>\<rparr>
      in \<lparr>req_url = api_url, req_json = blog_post_data, req_headers = request_headers\<rparr>)"

definition upload_message :: "source_connector \<Rightarrow> int \<Rightarrow> string \<Rightarrow> string" where
  "upload_message source_connector status_code text =
     (if status_code \<in> set [200, 201, 202] then
        ''Blog post successfully uploaded for '' @ original source_connector @ ''!''
      else
        ''Failed to upload blog post '' @ original source_connector @ ''. Status code: '' @
         str_int status_code @ '', Response: '' @ text)"

definition upload_post_to_webflow ::
  "'x services \<Rightarrow> environ \<Rightarrow> source_connector \<Rightarrow> string \<Rightarrow> 'x world \<Rightarrow> (exn + unit) \<times> 'x world" where
  "upload_post_to_webflow svc env source_connector blog_post_body w =
     (let request = upload_request env source_connector blog_post_body in
      case requests_post svc request (ext w) of
        (Inl e, x) \<Rightarrow> (Inl e, w\<lparr>ext := x, http_log := http_log w @ [request]\<rparr>)
      | (Inr (status_code, text), x) \<Rightarrow>
          (Inr (), w\<lparr>ext := x, http_log := http_log w @ [request],
                     stdout := stdout w @ [upload_message source_connector status_code text]\<rparr>))"

subsection \<open>\<open>download_post\<close>\<close>

text \<open>
  Opening a file in mode \<open>w\<close> creates it or truncates it to the empty text; the write
  then puts the body there. Either step can raise.
\<close>

definition download_post ::
  "'x services \<Rightarrow> source_connector \<Rightarrow> string \<Rightarrow> 'x world \<Rightarrow> (exn + unit) \<times> 'x world" where
  "download_post svc source_connector blog_post_body w =
     (let filename = ''./blogs/'' @ formatted source_connector @ ''.md'' in
      case open_w svc filename (ext w) of
        (Some e, x) \<Rightarrow> (Inl e, w\<lparr>ext := x\<rparr>)
      | (None, x) \<Rightarrow>
          (case file_write svc filename blog_post_body x of
             (Some e, x') \<Rightarrow> (Inl e, w\<lparr>ext := x', files := (files w)(filename \<mapsto> [])\<rparr>)
           | (None, x') \<Rightarrow>
               (Inr (), w\<lparr>ext := x', files := (files w)(filename \<mapsto> blog_post_body),
                          stdout := stdout w @ [''File saved as '' @ filename @ ''!'']\<rparr>)))"

subsection \<open>The main program\<close>

text \<open>The two texts of the dictionary \<open>ctas\<close>, then the dictionary.\<close>

definition docs_quickstarts_cta :: string where
  "docs_quickstarts_cta =
     ''For keeping up with the latest PyAirbyte'' @ rsquo @
     ''s features, make sure to check [our '' @
     ''documentation](https://docs.airbyte.com/using-airbyte/pyairbyte/getting-sta'' @
     ''rted). And if you'' @ rsquo @
     ''re eager to see more code examples with PyAirbyte, check out our '' @
     ''[Quickstarts '' @
     ''library](https://github.com/airbytehq/quickstarts/tree/main/pyairbyte_noteb'' @
     ''ooks).''"

definition slack_newsletter_cta :: string where
  "slack_newsletter_cta =
     ''Do you have any questions or feedback for us? You can keep in touch by '' @
     ''joining our [Slack channel](https://airbyte.com/community/community)! If '' @
     ''you want to keep up to date with new PyAirbyte features, [subscribe to '' @
     ''our newsletter](https://airbyte.com/community/newsletter).''"

definition ctas :: "string \<rightharpoonup> string option" where
  "ctas = [
     ''docs_quickstarts_cta'' \<mapsto> Some docs_quickstarts_cta,
     ''slack_newsletter_cta'' \<mapsto> Some slack_newsletter_cta]"

definition chapter_1_prompt :: "string \<Rightarrow> string" where
  "chapter_1_prompt source_original =
     ''I'' @ rsquo @
     ''m writing a guide and I need your help to write some of the chapters.'' @ crlf @
     crlf @
     ''The guide focuses on the challenges of creating custom Python scripts for '' @
     ''creating data pipelines from '' @ source_original @
     '' and how PyAirbyte simplifies this process. '' @ crlf @
     crlf @
     ''[PyAirbyte] (https://airbyte.com/product/pyairbyte) is an open-source '' @
     ''Python library that packages Airbyte connectors and makes them available '' @
     ''as code, while removing the need for hosted services or an Airbyte Cloud '' @
     ''account.'' @ crlf @ crlf @ ''Please help me write the following chapter. Don'' @
     rsquo @ ''t include an introduction and conclusion:'' @ crlf @
     crlf @ ''Title: Traditional Methods for Creating '' @ source_original @
     '' Data Pipelines'' @ crlf @ ''Cover the following:'' @ crlf @
     ''Outline conventional methods, like custom Python scripts.'' @ crlf @
     ''Describe specific pain points in extracting data from '' @ source_original @ ''.'' @
     crlf @
     ''Explain the impact of these challenges on data pipeline efficiency and '' @
     ''maintenance.'' @ crlf"

definition chapter_2_prompt :: "string \<Rightarrow> string \<Rightarrow> string" where
  "chapter_2_prompt source_original code_example =
     ''Let'' @ rsquo @ ''s continue with the next chapter. Don'' @ rsquo @
     ''t include an introduction and conclusion:'' @ crlf @
     crlf @ ''Title: Implementing a Python Data Pipeline for '' @ source_original @
     '' with PyAirbyte'' @ crlf @
     ''Include the following Python code snippets and explain what'' @ rsquo @
     ''s happening in each section:'' @ crlf @
     code_example @ crlf"

definition chapter_3_prompt :: "string \<Rightarrow> string" where
  "chapter_3_prompt source_original =
     ''Let'' @ rsquo @ ''s continue with the next chapter. Don'' @ rsquo @
     ''t include an introduction and conclusion:'' @ crlf @
     crlf @ ''Title: Why Using PyAirbyte for '' @ source_original @ '' Data Pipelines:'' @
     crlf @ ''Cover the following:'' @ crlf @
     ''PyAirbyte can be installed with pip, and the only requirement is to have '' @
     ''Python installed.'' @ crlf @
     ''You can easily get and configure the available source connectors. It'' @ rsquo @
     ''s also possible to install custom source connectors.'' @ crlf @
     ''By enabling the selection of specific data streams, PyAirbyte conserves '' @
     ''computing resources and streamlines data processing.'' @ crlf @
     ''With support for multiple caching backends like DuckDB, MotherDuck, '' @
     ''Postgres, Snowflake and BigQuery, PyAirbyte offers flexibility. If users don'' @
     rsquo @ ''t define a specific Cache, DuckDB is used as the default cache.'' @ crlf @
     ''PyAirbyte is able to read data incrementally. This feature is key for '' @
     ''efficiently handling large datasets and reducing the load on data sources.'' @
     crlf @
     ''PyAirbyte is compatible with various Python libraries, like Pandas and '' @
     ''SQL-based tools, which opens up a wide range of possibilities for data '' @
     ''transformation, analysis, integration into existing Python-based data '' @
     ''workflows, orchestrators and AI frameworks.'' @ crlf @
     ''PyAirbyte is ideally suited for enabling AI applications.'' @ crlf"

definition conclusion_prompt :: string where
  "conclusion_prompt =
     ''Let'' @ rsquo @ ''s write a very short conclusion chapter for this guide.''"

definition introduction_prompt :: string where
  "introduction_prompt =
     ''Let'' @ rsquo @
     ''s write a very short introduction, highlighting some of the challenges '' @
     ''and how PyAirbyte could reduce them.''"

text \<open>
  The ordered dictionary \<open>chapter_prompts\<close>, given the text \<open>create_code_example\<close> has
  returned for the second prompt.
\<close>

definition chapter_prompts :: "source_connector \<Rightarrow> string \<Rightarrow> (string \<times> string) list" where
  "chapter_prompts source code_example =
     [(''chapter_1'', chapter_1_prompt (original source)),
      (''chapter_2'', chapter_2_prompt (original source) code_example),
      (''chapter_3'', chapter_3_prompt (original source)),
      (''conclusion'', conclusion_prompt),
      (''introduction'', introduction_prompt)]"

text \<open>One iteration of the loop \<open>for source in sources\<close>.\<close>

definition process_source ::
  "'x services \<Rightarrow> environ \<Rightarrow> source_connector \<Rightarrow> 'x world \<Rightarrow> (exn + unit) \<times> 'x world" where
  "process_source svc env source w =
     (case create_code_example svc (formatted source) w of
        (Inl e, w1) \<Rightarrow> (Inl e, w1)
      | (Inr code_example, w1) \<Rightarrow>
          (case build_blog_post svc (chapter_prompts source code_example) [] Map.empty ctas w1 of
             (Inl e, w2) \<Rightarrow> (Inl e, w2)
           | (Inr (blog_post, _), w2) \<Rightarrow>
               (case download_post svc source blog_post w2 of
                  (Inl e, w3) \<Rightarrow> (Inl e, w3)
                | (Inr _, w3) \<Rightarrow> upload_post_to_webflow svc env source blog_post w3)))"

fun main_loop ::
  "'x services \<Rightarrow> environ \<Rightarrow> source_connector list \<Rightarrow> 'x world \<Rightarrow> (exn + unit) \<times> 'x world" where
  "main_loop svc env [] w = (Inr (), w)"
| "main_loop svc env (source # sources) w =
     (case process_source svc env source w of
        (Inl e, w') \<Rightarrow> (Inl e, w')
      | (Inr _, w') \<Rightarrow> main_loop svc env sources w')"

definition main ::
  "'x services \<Rightarrow> environ \<Rightarrow> source_connector list \<Rightarrow> 'x world \<Rightarrow> (exn + unit) \<times> 'x world" where
  "main svc env sources w =
     (case OpenAI svc (env ''OPENAI_KEY'') (ext w) of
        (Some e, x) \<Rightarrow> (Inl e, w\<lparr>ext := x\<rparr>)
      | (None, x) \<Rightarrow> main_loop svc env sources (w\<lparr>ext := x\<rparr>))"

section \<open>Auxiliary notions for the properties\<close>

text \<open>The turns the program builds: \<open>{"role": "assistant", "content": text}\<close> and so on.\<close>

definition assistant_turn :: "string option \<Rightarrow> message" where
  "assistant_turn text = \<lparr>role = ''assistant'', content = text\<rparr>"

definition user_turn :: "string \<Rightarrow> message" where
  "user_turn prompt = \<lparr>role = ''user'', content = Some prompt\<rparr>"

definition system_turn :: message where
  "system_turn = \<lparr>role = ''system'', content = Some system_prompt\<rparr>"

text \<open>
  The requests one expects the chapter loop to send, given the history it starts from,
  the prompts in order and the texts the model returns: each request carries the
  history so far and the prompt, and the returned text joins the history as an
  assistant turn before the next request is built.
\<close>

fun expected_requests :: "message list \<Rightarrow> string list \<Rightarrow> string option list \<Rightarrow> message list list" where
  "expected_requests history (prompt # prompts) (text # texts) =
     ([system_turn] @ history @ [user_turn prompt])
       # expected_requests (history @ [assistant_turn text]) prompts texts"
| "expected_requests history _ _ = []"

text \<open>
  The places where a deletion can bring the letters of \<open>json\<close> together: a letter \<open>j\<close>,
  \<open>s\<close> or \<open>o\<close> immediately followed by an occurrence of \<open>json\<close> or by a backtick. The
  second predicate keeps the backticks only.
\<close>

definition joins_json :: "string \<Rightarrow> bool" where
  "joins_json r =
     (\<exists>x \<in> set ''jso''. sublist (x # ''json'') r \<or> sublist (x # backtick) r)"

definition before_backtick :: "string \<Rightarrow> bool" where
  "before_backtick t = (\<exists>x \<in> set ''jso''. sublist (x # backtick) t)"

subsection \<open>A scripted outside world for concrete runs\<close>

text \<open>
  The hidden state counts the calls to the model API; the \<open>n\<close>-th call gets the \<open>n\<close>-th
  scripted answer, every other service succeeds, and the CMS always gives the same
  response.
\<close>

definition scripted :: "(exn + string option) list \<Rightarrow> nat \<Rightarrow> exn + string option" where
  "scripted answers n =
     (if n < length answers then answers ! n else Inl (LibraryError ''APIConnectionError''))"

definition test_services :: "(nat \<Rightarrow> exn + string option) \<Rightarrow> int \<times> string \<Rightarrow> nat services" where
  "test_services answer response = \<lparr>
     OpenAI = (\<lambda>key n. (None, n)),
     get_source = (\<lambda>connector n. (Inr ''{}'', n)),
     chat_api = (\<lambda>model messages n. (answer n, Suc n)),
     open_w = (\<lambda>filename n. (None, n)),
     file_write = (\<lambda>filename text n. (None, n)),
     requests_post = (\<lambda>request n. (Inr response, n))\<rparr>"

definition fresh_world :: "nat world" where
  "fresh_world = \<lparr>ext = 0, chat_log = [], files = Map.empty, http_log = [], stdout = []\<rparr>"

text \<open>
  One connector, and a script of six answers: the configuration for the code example,
  then the five chapters in the order they are asked for. The worlds are those after
  the code example, after the five chapters and after the local file has been written.
\<close>

definition demo_source :: source_connector where
  "demo_source = \<lparr>original = ''Foo'', formatted = ''source-foo''\<rparr>"

definition demo_texts :: "string option list" where
  "demo_texts = [Some ''one'', Some ''two'', Some ''three'', Some ''four'', Some ''five'']"

definition demo_answers :: "(exn + string option) list" where
  "demo_answers = Inr (Some ''{}'') # map Inr demo_texts"

definition demo_services :: "int \<times> string \<Rightarrow> nat services" where
  "demo_services response = test_services (scripted demo_answers) response"

definition demo_code_example :: string where
  "demo_code_example = snippet_text ''source-foo'' ''{}''"

definition demo_world_after_example :: "nat world" where
  "demo_world_after_example = \<lparr>
     ext = 1,
     chat_log = [[\<lparr>role = ''system'', content = Some ''You are a helpful assistant.''\<rparr>,
                  \<lparr>role = ''user'', content = Some (code_example_prompt ''{}'')\<rparr>]],
     files = Map.empty, http_log = [], stdout = []\<rparr>"

definition demo_history :: "message list" where
  "demo_history = map assistant_turn demo_texts"

definition demo_chapters :: "string \<rightharpoonup> string option" where
  "demo_chapters = [
     ''chapter_1'' \<mapsto> Some ''one'',
     ''chapter_2'' \<mapsto> Some ''two'',
     ''chapter_3'' \<mapsto> Some ''three'',
     ''conclusion'' \<mapsto> Some ''four'',
     ''introduction'' \<mapsto> Some ''five'']"

definition demo_world_after_chapters :: "nat world" where
  "demo_world_after_chapters = demo_world_after_example\<lparr>
     ext := 6,
     chat_log := chat_log demo_world_after_example
       @ expected_requests [] (map snd (chapter_prompts demo_source demo_code_example)) demo_texts\<rparr>"

definition demo_blog_post :: string where
  "demo_blog_post =
     ''five'' @ nl @ nl @ ''one'' @ nl @ nl @ ''two'' @ nl @ nl @ docs_quickstarts_cta @ nl @ nl
       @ ''three'' @ nl @ nl @ ''four'' @ nl @ nl @ slack_newsletter_cta"

definition demo_world_after_download :: "nat world" where
  "demo_world_after_download = demo_world_after_chapters\<lparr>
     files := [''./blogs/source-foo.md'' \<mapsto> demo_blog_post],
     stdout := [''File saved as ./blogs/source-foo.md!'']\<rparr>"

text \<open>
  The world after the upload of the demonstration connector, a catalog of three
  connectors, and the world in which the run over that catalog ends: the script holds
  six answers, so the seventh call to the model API, the first one made for the second
  connector, raises. The environment holds both secrets.
\<close>

definition demo_env :: environ where
  "demo_env = [''OPENAI_KEY'' \<mapsto> ''sk-test'', ''WEBFLOW_API_TOKEN'' \<mapsto> ''token'']"

definition demo_world_after_upload :: "environ \<Rightarrow> int \<times> string \<Rightarrow> nat world" where
  "demo_world_after_upload env response = demo_world_after_download\<lparr>
     http_log := [upload_request env demo_source demo_blog_post],
     stdout := stdout demo_world_after_download
       @ [upload_message demo_source (fst response) (snd response)]\<rparr>"



section \<open>Facts about \<open>replace\<close>\<close>

lemma replace_del_hit: "old \<noteq> [] \<Longrightarrow> replace old [] (old @ t) = replace old [] t"
  by (cases old) simp_all

lemma replace_del_miss:
  "old \<noteq> [] \<Longrightarrow> \<not> prefix old (c # cs) \<Longrightarrow> replace old [] (c # cs) = c # replace old [] cs"
  by simp

lemma replace_del_Nil: "replace old [] [] = []"
  by simp

declare replace.simps [simp del]
declare str_nat.simps [simp del]

text \<open>The three ways one step of a deleting scan can go.\<close>

lemma replace_del_cases [consumes 1, case_names empty hit miss]:
  assumes "old \<noteq> []"
  obtains (empty) "s = []" "replace old [] s = []"
  | (hit) t where "s = old @ t" "replace old [] s = replace old [] t" "length t < length s"
  | (miss) c cs where "s = c # cs" "\<not> prefix old s" "replace old [] s = c # replace old [] cs"
proof (cases s)
  case Nil
  then show ?thesis using empty by (simp add: replace_del_Nil)
next
  case (Cons c cs)
  show ?thesis
  proof (cases "prefix old s")
    case True
    then obtain t where t: "s = old @ t" by (auto simp: prefix_def)
    moreover have "replace old [] s = replace old [] t"
      using assms t by (simp add: replace_del_hit)
    moreover have "length t < length s" using assms t by simp
    ultimately show ?thesis by (rule hit)
  next
    case False
    then show ?thesis using miss Cons assms by (simp add: replace_del_miss)
  qed
qed

lemma length_replace_del: "old \<noteq> [] \<Longrightarrow> length (replace old [] s) \<le> length s"
proof (induction s rule: length_induct)
  case (1 s)
  from 1(2) show ?case
  proof (cases rule: replace_del_cases [where s = s])
    case empty then show ?thesis by simp
  next
    case (hit t)
    with 1 have "length (replace old [] t) \<le> length t" by blast
    with hit show ?thesis by simp
  next
    case (miss c cs)
    with 1 have "length (replace old [] cs) \<le> length cs" by simp
    with miss show ?thesis by simp
  qed
qed

lemma set_replace_del: "old \<noteq> [] \<Longrightarrow> set (replace old [] s) \<subseteq> set s"
proof (induction s rule: length_induct)
  case (1 s)
  from 1(2) show ?case
  proof (cases rule: replace_del_cases [where s = s])
    case empty then show ?thesis by simp
  next
    case (hit t)
    with 1 have "set (replace old [] t) \<subseteq> set t" by blast
    with hit show ?thesis by auto
  next
    case (miss c cs)
    with 1 have "set (replace old [] cs) \<subseteq> set cs" by simp
    with miss show ?thesis by auto
  qed
qed

text \<open>A text that contains the pattern loses at least the length of the pattern.\<close>

lemma length_replace_del_sublist:
  "old \<noteq> [] \<Longrightarrow> sublist old s \<Longrightarrow> length (replace old [] s) + length old \<le> length s"
proof (induction s rule: length_induct)
  case (1 s)
  from 1(2) show ?case
  proof (cases rule: replace_del_cases [where s = s])
    case empty with 1 show ?thesis by simp
  next
    case (hit t)
    have "length (replace old [] t) \<le> length t" using 1(2) by (rule length_replace_del)
    with hit(1,2) show ?thesis by simp
  next
    case (miss c cs)
    with 1(3) have "sublist old cs" by (simp add: sublist_Cons_right)
    with 1 miss have "length (replace old [] cs) + length old \<le> length cs" by simp
    with miss show ?thesis by simp
  qed
qed

text \<open>A text without the pattern is left as it is.\<close>

lemma replace_del_absent: "old \<noteq> [] \<Longrightarrow> \<not> sublist old s \<Longrightarrow> replace old [] s = s"
proof (induction s)
  case Nil
  then show ?case by (simp add: replace_del_Nil)
next
  case (Cons c cs)
  then have "\<not> prefix old (c # cs)" "\<not> sublist old cs"
    by (simp_all add: sublist_Cons_right)
  with Cons show ?case by (simp add: replace_del_miss)
qed

section \<open>The cleanup of the model's configuration\<close>

lemma fence_chars: "backtick @ backtick @ backtick = [CHR 0x60, CHR 0x60, CHR 0x60]"
  by (simp add: backtick_def)

text \<open>
  Deleting the fences leaves no fence: a run of backticks only gets shorter, and what
  remains of it is shorter than three.
\<close>

lemma replace_fence_inv:
  "\<not> sublist [CHR 0x60, CHR 0x60, CHR 0x60] (replace [CHR 0x60, CHR 0x60, CHR 0x60] [] s)
   \<and> (prefix [CHR 0x60] (replace [CHR 0x60, CHR 0x60, CHR 0x60] [] s) \<longrightarrow> prefix [CHR 0x60] s)
   \<and> (prefix [CHR 0x60, CHR 0x60] (replace [CHR 0x60, CHR 0x60, CHR 0x60] [] s)
        \<longrightarrow> prefix [CHR 0x60, CHR 0x60] s)"
  (is "?P s")
proof (induction s rule: length_induct)
  case (1 s)
  let ?f = "[CHR 0x60, CHR 0x60, CHR 0x60]"
  have ne: "?f \<noteq> []" by simp
  from ne show ?case
  proof (cases rule: replace_del_cases [where s = s])
    case empty then show ?thesis by simp
  next
    case (hit t)
    with 1 have "\<not> sublist ?f (replace ?f [] t)" by blast
    moreover have "prefix [CHR 0x60] s" "prefix [CHR 0x60, CHR 0x60] s"
      using hit(1) by simp_all
    ultimately show ?thesis using hit(2) by simp
  next
    case (miss c cs)
    have ih: "\<not> sublist ?f (replace ?f [] cs)"
      "prefix [CHR 0x60] (replace ?f [] cs) \<longrightarrow> prefix [CHR 0x60] cs"
      "prefix [CHR 0x60, CHR 0x60] (replace ?f [] cs) \<longrightarrow> prefix [CHR 0x60, CHR 0x60] cs"
      using 1 miss(1) by simp_all
    have "\<not> prefix ?f (c # replace ?f [] cs)"
      using miss(1,2) ih(3) by (auto simp: prefix_Cons)
    with ih(1) have "\<not> sublist ?f (c # replace ?f [] cs)"
      by (simp add: sublist_Cons_right)
    moreover have "prefix [CHR 0x60] (c # replace ?f [] cs) \<longrightarrow> prefix [CHR 0x60] (c # cs)"
      by simp
    moreover have "prefix [CHR 0x60, CHR 0x60] (c # replace ?f [] cs)
        \<longrightarrow> prefix [CHR 0x60, CHR 0x60] (c # cs)"
      using ih(2) by auto
    ultimately show ?thesis using miss(1,3) by simp
  qed
qed

lemma strip_fences_no_fence: "\<not> sublist (backtick @ backtick @ backtick) (strip_fences r)"
  using replace_fence_inv [of "replace ''json'' [] r"] by (simp add: strip_fences_def fence_chars)

text \<open>No occurrence of \<open>json\<close> starts inside another one or just before it.\<close>

lemma not_prefix_json_straddle:
  assumes "\<not> prefix ''json'' (c # cs)"
  shows "\<not> prefix ''json'' ((c # cs) @ ''json'' @ b)"
proof (cases cs)
  case Nil then show ?thesis by (simp add: prefix_Cons)
next
  case c1: (Cons d ds)
  show ?thesis
  proof (cases ds)
    case Nil with c1 show ?thesis by (simp add: prefix_Cons)
  next
    case c2: (Cons e es)
    show ?thesis
    proof (cases es)
      case Nil with c1 c2 show ?thesis by (simp add: prefix_Cons)
    next
      case (Cons f fs)
      with c1 c2 assms show ?thesis by (simp add: prefix_Cons)
    qed
  qed
qed

lemma replace_json_occurrence:
  "replace ''json'' [] (a @ ''json'' @ b) = replace ''json'' [] a @ replace ''json'' [] b"
proof (induction a rule: length_induct)
  case (1 a)
  have ne: "''json'' \<noteq> []" by simp
  from ne show ?case
  proof (cases rule: replace_del_cases [where s = a])
    case empty
    then show ?thesis using replace_del_hit [OF ne, of b] by simp
  next
    case (hit t)
    with 1 have "replace ''json'' [] (t @ ''json'' @ b) = replace ''json'' [] t @ replace ''json'' [] b"
      by blast
    moreover have "replace ''json'' [] (a @ ''json'' @ b) = replace ''json'' [] (t @ ''json'' @ b)"
      using replace_del_hit [OF ne, of "t @ ''json'' @ b"] hit(1) by simp
    ultimately show ?thesis using hit(2) by simp
  next
    case (miss c cs)
    have "\<not> prefix ''json'' ((c # cs) @ ''json'' @ b)"
      using miss(1,2) not_prefix_json_straddle [of c cs b] by simp
    then have "replace ''json'' [] ((c # cs) @ ''json'' @ b) = c # replace ''json'' [] (cs @ ''json'' @ b)"
      using replace_del_miss [OF ne, of c "cs @ ''json'' @ b"] by simp
    moreover have "replace ''json'' [] (cs @ ''json'' @ b) = replace ''json'' [] cs @ replace ''json'' [] b"
      using 1 miss(1) by simp
    ultimately show ?thesis using miss(1,3) by simp
  qed
qed

lemma length_strip_fences: "sublist ''json'' r \<Longrightarrow> length (strip_fences r) + 4 \<le> length r"
proof -
  assume "sublist ''json'' r"
  then have "length (replace ''json'' [] r) + length ''json'' \<le> length r"
    by (intro length_replace_del_sublist) simp_all
  moreover have "length (strip_fences r) \<le> length (replace ''json'' [] r)"
    unfolding strip_fences_def by (rule length_replace_del) (simp add: backtick_def)
  ultimately show ?thesis by simp
qed

text \<open>What \<open>create_code_example\<close> returns when the connector resolves and the model answers.\<close>

lemma create_code_example_returns:
  assumes "get_source svc connector (ext w) = (Inr config_spec, x)"
    and "chat_api svc ''gpt-4-turbo-preview''
           [\<lparr>role = ''system'', content = Some ''You are a helpful assistant.''\<rparr>,
            \<lparr>role = ''user'', content = Some (code_example_prompt config_spec)\<rparr>] x
         = (Inr (Some r), x')"
  shows "create_code_example svc connector w =
     (Inr (snippet_text connector (strip_fences r)),
      w\<lparr>ext := x', chat_log := chat_log w @
         [[\<lparr>role = ''system'', content = Some ''You are a helpful assistant.''\<rparr>,
           \<lparr>role = ''user'', content = Some (code_example_prompt config_spec)\<rparr>]]\<rparr>)"
  using assms by (simp add: create_code_example_def chat_completions_create_def)

lemma sublist_skip: "sublist xs ys \<Longrightarrow> sublist xs (zs @ ys)"
  by (metis sublist_append)

lemma snippet_text_contains_config: "sublist config (snippet_text connector config)"
  unfolding snippet_text_def by (rule sublist_append_rightI | rule sublist_skip)+


lemma joins_json_Cons: "\<not> joins_json (c # cs) \<Longrightarrow> \<not> joins_json cs"
  by (auto simp: joins_json_def sublist_Cons_right)

lemma joins_json_head:
  "\<not> joins_json (c # cs) \<Longrightarrow> c \<in> set ''jso'' \<Longrightarrow> \<not> prefix ''json'' cs \<and> \<not> prefix backtick cs"
  by (auto simp: joins_json_def sublist_Cons_right)

lemma joins_json_append: "\<not> joins_json (a @ t) \<Longrightarrow> \<not> joins_json t"
  by (induction a) (auto dest: joins_json_Cons)

lemma before_backtick_Cons: "\<not> before_backtick (c # cs) \<Longrightarrow> \<not> before_backtick cs"
  by (auto simp: before_backtick_def sublist_Cons_right)

lemma before_backtick_head:
  "\<not> before_backtick (c # cs) \<Longrightarrow> c \<in> set ''jso'' \<Longrightarrow> \<not> prefix backtick cs"
  by (auto simp: before_backtick_def sublist_Cons_right)

lemma before_backtick_append: "\<not> before_backtick (a @ t) \<Longrightarrow> \<not> before_backtick t"
  by (induction a) (auto dest: before_backtick_Cons)

lemma before_backtick_ConsI:
  "\<not> before_backtick cs \<Longrightarrow> (c \<in> set ''jso'' \<Longrightarrow> \<not> prefix backtick cs) \<Longrightarrow> \<not> before_backtick (c # cs)"
  by (auto simp: before_backtick_def sublist_Cons_right backtick_def)

text \<open>Deleting \<open>json\<close> from a text in which nothing joins leaves no \<open>json\<close>.\<close>

lemma replace_json_inv:
  assumes "\<not> joins_json r"
  shows "\<not> sublist ''json'' (replace ''json'' [] r)
    \<and> (prefix ''son'' (replace ''json'' [] r) \<longrightarrow> prefix ''son'' r \<or> prefix ''json'' r)
    \<and> (prefix ''on'' (replace ''json'' [] r) \<longrightarrow> prefix ''on'' r \<or> prefix ''json'' r)
    \<and> (prefix backtick (replace ''json'' [] r) \<longrightarrow> prefix backtick r \<or> prefix ''json'' r)
    \<and> \<not> before_backtick (replace ''json'' [] r)"
  using assms
proof (induction r rule: length_induct)
  case (1 r)
  have ne: "''json'' \<noteq> []" by simp
  from ne show ?case
  proof (cases rule: replace_del_cases [where s = r])
    case empty
    then show ?thesis by (simp add: before_backtick_def backtick_def)
  next
    case (hit t)
    have "\<not> joins_json t" using 1(2) hit(1) joins_json_append by blast
    with 1(1) hit(3) have "\<not> sublist ''json'' (replace ''json'' [] t)"
      "\<not> before_backtick (replace ''json'' [] t)" by blast+
    moreover have "prefix ''json'' r" using hit(1) by simp
    ultimately show ?thesis using hit(2) by simp
  next
    case (miss c cs)
    have nj: "\<not> joins_json cs" using 1(2) miss(1) joins_json_Cons by blast
    have "length cs < length r" using miss(1) by simp
    with 1(1) nj have ih:
      "\<not> sublist ''json'' (replace ''json'' [] cs)"
      "prefix ''son'' (replace ''json'' [] cs) \<longrightarrow> prefix ''son'' cs \<or> prefix ''json'' cs"
      "prefix ''on'' (replace ''json'' [] cs) \<longrightarrow> prefix ''on'' cs \<or> prefix ''json'' cs"
      "prefix backtick (replace ''json'' [] cs) \<longrightarrow> prefix backtick cs \<or> prefix ''json'' cs"
      "\<not> before_backtick (replace ''json'' [] cs)"
      by blast+
    have head: "c \<in> set ''jso'' \<Longrightarrow> \<not> prefix ''json'' cs \<and> \<not> prefix backtick cs"
      using 1(2) miss(1) joins_json_head by blast
    have a: "\<not> prefix ''json'' (c # replace ''json'' [] cs)"
    proof
      assume p: "prefix ''json'' (c # replace ''json'' [] cs)"
      then have c: "c = CHR ''j''" and "prefix ''son'' (replace ''json'' [] cs)" by auto
      with ih(2) have "prefix ''son'' cs \<or> prefix ''json'' cs" by blast
      moreover have "\<not> prefix ''json'' cs" using head c by simp
      moreover have "\<not> prefix ''son'' cs" using miss(1,2) c by simp
      ultimately show False by blast
    qed
    have b: "prefix ''son'' (c # replace ''json'' [] cs) \<longrightarrow> prefix ''son'' (c # cs)"
    proof
      assume "prefix ''son'' (c # replace ''json'' [] cs)"
      then have c: "c = CHR ''s''" and "prefix ''on'' (replace ''json'' [] cs)" by auto
      with ih(3) have "prefix ''on'' cs \<or> prefix ''json'' cs" by blast
      moreover have "\<not> prefix ''json'' cs" using head c by simp
      ultimately show "prefix ''son'' (c # cs)" using c by simp
    qed
    have d: "prefix ''on'' (c # replace ''json'' [] cs) \<longrightarrow> prefix ''on'' (c # cs)"
    proof
      assume "prefix ''on'' (c # replace ''json'' [] cs)"
      then have c: "c = CHR ''o''" and "prefix ''n'' (replace ''json'' [] cs)" by auto
      have "\<not> prefix ''json'' cs" using head c by simp
      have "prefix ''n'' cs"
      proof (rule ccontr)
        assume n: "\<not> prefix ''n'' cs"
        from ne show False
        proof (cases rule: replace_del_cases [where s = cs])
          case empty
          with \<open>prefix ''n'' (replace ''json'' [] cs)\<close> show False by simp
        next
          case (hit t)
          with \<open>\<not> prefix ''json'' cs\<close> show False by simp
        next
          case (miss c' cs')
          with \<open>prefix ''n'' (replace ''json'' [] cs)\<close> n show False by simp
        qed
      qed
      then show "prefix ''on'' (c # cs)" using c by simp
    qed
    have e: "prefix backtick (c # replace ''json'' [] cs) \<longrightarrow> prefix backtick (c # cs)"
      by (simp add: backtick_def)
    have f: "\<not> before_backtick (c # replace ''json'' [] cs)"
    proof (rule before_backtick_ConsI [OF ih(5)])
      assume c: "c \<in> set ''jso''"
      show "\<not> prefix backtick (replace ''json'' [] cs)"
        using ih(4) head [OF c] by blast
    qed
    from a ih(1) have g: "\<not> sublist ''json'' (c # replace ''json'' [] cs)"
      by (simp add: sublist_Cons_right)
    have eq: "replace ''json'' [] (c # cs) = c # replace ''json'' [] cs"
      using miss(1,3) by simp
    show ?thesis
      unfolding miss(1) eq using b d e f g by blast
  qed
qed


lemma not_sublist_append: "\<not> sublist p (a @ t) \<Longrightarrow> \<not> sublist p t"
  using sublist_skip by blast

text \<open>Deleting the fences from a text without \<open>json\<close> in which no letter joins.\<close>

lemma replace_fence_keeps_json_out:
  assumes "\<not> sublist ''json'' t" and "\<not> before_backtick t"
  shows "\<not> sublist ''json'' (replace [CHR 0x60, CHR 0x60, CHR 0x60] [] t)
    \<and> (prefix ''son'' (replace [CHR 0x60, CHR 0x60, CHR 0x60] [] t)
          \<longrightarrow> prefix ''son'' t \<or> prefix backtick t)
    \<and> (prefix ''on'' (replace [CHR 0x60, CHR 0x60, CHR 0x60] [] t)
          \<longrightarrow> prefix ''on'' t \<or> prefix backtick t)"
  using assms
proof (induction t rule: length_induct)
  case (1 t)
  let ?f = "[CHR 0x60, CHR 0x60, CHR 0x60]"
  have ne: "?f \<noteq> []" by simp
  from ne show ?case
  proof (cases rule: replace_del_cases [where s = t])
    case empty
    then show ?thesis by simp
  next
    case (hit u)
    have "\<not> sublist ''json'' u" "\<not> before_backtick u"
      using 1(2,3) hit(1) not_sublist_append before_backtick_append by blast+
    with 1(1) hit(3) have "\<not> sublist ''json'' (replace ?f [] u)" by blast
    moreover have "prefix backtick t" using hit(1) by (simp add: backtick_def)
    ultimately show ?thesis using hit(2) by simp
  next
    case (miss c cs)
    have nj: "\<not> sublist ''json'' cs" and np: "\<not> prefix ''json'' (c # cs)"
      using 1(2) miss(1) by (simp_all add: sublist_Cons_right)
    have nb: "\<not> before_backtick cs"
      using 1(3) miss(1) before_backtick_Cons by blast
    have "length cs < length t" using miss(1) by simp
    with 1(1) nj nb have ih:
      "\<not> sublist ''json'' (replace ?f [] cs)"
      "prefix ''son'' (replace ?f [] cs) \<longrightarrow> prefix ''son'' cs \<or> prefix backtick cs"
      "prefix ''on'' (replace ?f [] cs) \<longrightarrow> prefix ''on'' cs \<or> prefix backtick cs"
      by blast+
    have head: "c \<in> set ''jso'' \<Longrightarrow> \<not> prefix backtick cs"
      using 1(3) miss(1) before_backtick_head by blast
    have a: "\<not> prefix ''json'' (c # replace ?f [] cs)"
    proof
      assume "prefix ''json'' (c # replace ?f [] cs)"
      then have c: "c = CHR ''j''" and "prefix ''son'' (replace ?f [] cs)" by auto
      with ih(2) have "prefix ''son'' cs \<or> prefix backtick cs" by blast
      moreover have "\<not> prefix backtick cs" using head c by simp
      moreover have "\<not> prefix ''son'' cs" using np c by simp
      ultimately show False by blast
    qed
    have b: "prefix ''son'' (c # replace ?f [] cs) \<longrightarrow> prefix ''son'' (c # cs)"
    proof
      assume "prefix ''son'' (c # replace ?f [] cs)"
      then have c: "c = CHR ''s''" and "prefix ''on'' (replace ?f [] cs)" by auto
      with ih(3) have "prefix ''on'' cs \<or> prefix backtick cs" by blast
      moreover have "\<not> prefix backtick cs" using head c by simp
      ultimately show "prefix ''son'' (c # cs)" using c by simp
    qed
    have d: "prefix ''on'' (c # replace ?f [] cs) \<longrightarrow> prefix ''on'' (c # cs)"
    proof
      assume "prefix ''on'' (c # replace ?f [] cs)"
      then have c: "c = CHR ''o''" and n: "prefix ''n'' (replace ?f [] cs)" by auto
      have nbt: "\<not> prefix backtick cs" using head c by simp
      have "prefix ''n'' cs"
      proof (rule ccontr)
        assume nn: "\<not> prefix ''n'' cs"
        from ne show False
        proof (cases rule: replace_del_cases [where s = cs])
          case empty
          with n show False by simp
        next
          case (hit u)
          with nbt show False by (simp add: backtick_def)
        next
          case (miss c' cs')
          with n nn show False by simp
        qed
      qed
      then show "prefix ''on'' (c # cs)" using c by simp
    qed
    from a ih(1) have g: "\<not> sublist ''json'' (c # replace ?f [] cs)"
      by (simp add: sublist_Cons_right)
    have eq: "replace ?f [] (c # cs) = c # replace ?f [] cs"
      using miss(1,3) by simp
    show ?thesis
      unfolding miss(1) eq using b d g by blast
  qed
qed

lemma strip_fences_no_json:
  assumes "\<not> joins_json r"
  shows "\<not> sublist ''json'' (strip_fences r)"
proof -
  from replace_json_inv [OF assms]
  have "\<not> sublist ''json'' (replace ''json'' [] r)"
    and "\<not> before_backtick (replace ''json'' [] r)" by blast+
  from replace_fence_keeps_json_out [OF this]
  show ?thesis by (simp add: strip_fences_def fence_chars)
qed

subsection \<open>Claim C7\<close>

text \<open>
  C7 says that, for every model response, the snippet never contains three backticks or
  \<open>json\<close> left over from the stripping. The scan that deletes \<open>json\<close> runs once, and so
  does the scan that deletes the fences after it; the text around a deleted occurrence
  is joined and not scanned again. A response fenced as a \<open>json\<close> block whose body holds
  \<open>jsjsonon\<close> therefore yields a snippet that contains \<open>json\<close>.
\<close>

theorem create_code_example_keeps_json:
  "fst (create_code_example
          (test_services
             (scripted [Inr (Some (backtick @ backtick @ backtick @ ''json'' @ nl
                @ ''{format: jsjsonon}'' @ nl @ backtick @ backtick @ backtick))])
             (200, ''ok''))
          ''source-foo'' fresh_world)
     = Inr (snippet_text ''source-foo'' (nl @ ''{format: json}'' @ nl))
   \<and> sublist ''json'' (snippet_text ''source-foo'' (nl @ ''{format: json}'' @ nl))"
proof
  have "strip_fences (backtick @ backtick @ backtick @ ''json'' @ nl
          @ ''{format: jsjsonon}'' @ nl @ backtick @ backtick @ backtick)
        = nl @ ''{format: json}'' @ nl"
    by code_simp
  then show "fst (create_code_example
          (test_services
             (scripted [Inr (Some (backtick @ backtick @ backtick @ ''json'' @ nl
                @ ''{format: jsjsonon}'' @ nl @ backtick @ backtick @ backtick))])
             (200, ''ok''))
          ''source-foo'' fresh_world)
     = Inr (snippet_text ''source-foo'' (nl @ ''{format: json}'' @ nl))"
    by (simp add: create_code_example_def chat_completions_create_def test_services_def
        scripted_def fresh_world_def)
next
  have "sublist ''json'' (nl @ ''{format: json}'' @ nl)"
    by code_simp
  moreover have "sublist (nl @ ''{format: json}'' @ nl)
      (snippet_text ''source-foo'' (nl @ ''{format: json}'' @ nl))"
    by (rule snippet_text_contains_config)
  ultimately show "sublist ''json'' (snippet_text ''source-foo'' (nl @ ''{format: json}'' @ nl))"
    by (rule sublist_order.order_trans)
qed

text \<open>
  C7 as amended: when the connector resolves and the model answers with a text \<open>r\<close>,
  \<open>create_code_example\<close> returns the template filled with the connector and the cleaned
  configuration \<open>strip_fences r\<close>. That configuration never contains three backticks in
  a row. It contains no \<open>json\<close> whenever no letter \<open>j\<close>, \<open>s\<close> or \<open>o\<close> of the response is
  immediately followed by \<open>json\<close> or by a backtick.
\<close>

theorem create_code_example_strips_fences:
  assumes "get_source svc connector (ext w) = (Inr config_spec, x)"
    and "chat_api svc ''gpt-4-turbo-preview''
           [\<lparr>role = ''system'', content = Some ''You are a helpful assistant.''\<rparr>,
            \<lparr>role = ''user'', content = Some (code_example_prompt config_spec)\<rparr>] x
         = (Inr (Some r), x')"
  shows "fst (create_code_example svc connector w) = Inr (snippet_text connector (strip_fences r))
    \<and> \<not> sublist (backtick @ backtick @ backtick) (strip_fences r)
    \<and> (\<not> joins_json r \<longrightarrow> \<not> sublist ''json'' (strip_fences r))"
proof -
  have "fst (create_code_example svc connector w) = Inr (snippet_text connector (strip_fences r))"
    using create_code_example_returns [OF assms] by simp
  moreover have "\<not> joins_json r \<longrightarrow> \<not> sublist ''json'' (strip_fences r)"
    using strip_fences_no_json [of r] by blast
  ultimately show ?thesis using strip_fences_no_fence [of r] by simp
qed

theorem create_code_example_strips_fences_witness:
  "fst (create_code_example
          (test_services
             (scripted [Inr (Some (backtick @ backtick @ backtick @ ''json'' @ nl
                @ ''{project: jobs, format: csv}'' @ nl @ backtick @ backtick @ backtick))])
             (200, ''ok''))
          ''source-foo'' fresh_world)
     = Inr (snippet_text ''source-foo'' (nl @ ''{project: jobs, format: csv}'' @ nl))
   \<and> \<not> sublist (backtick @ backtick @ backtick) (nl @ ''{project: jobs, format: csv}'' @ nl)
   \<and> \<not> sublist ''json'' (nl @ ''{project: jobs, format: csv}'' @ nl)"
proof -
  let ?r = "backtick @ backtick @ backtick @ ''json'' @ nl
              @ ''{project: jobs, format: csv}'' @ nl @ backtick @ backtick @ backtick"
  let ?svc = "test_services (scripted [Inr (Some ?r)]) (200, ''ok'')"
  have src: "get_source ?svc ''source-foo'' (ext fresh_world) = (Inr ''{}'', 0)"
    by (simp add: test_services_def fresh_world_def)
  have chat: "chat_api ?svc ''gpt-4-turbo-preview''
           [\<lparr>role = ''system'', content = Some ''You are a helpful assistant.''\<rparr>,
            \<lparr>role = ''user'', content = Some (code_example_prompt ''{}'')\<rparr>] 0
         = (Inr (Some ?r), Suc 0)"
    by (simp add: test_services_def scripted_def)
  have j: "\<not> joins_json ?r"
    by code_simp
  have eq: "strip_fences ?r = nl @ ''{project: jobs, format: csv}'' @ nl"
    by code_simp
  show ?thesis
    using create_code_example_strips_fences [OF src chat] j eq by simp
qed

subsection \<open>Claim C10\<close>

text \<open>
  C10: the cleanup deletes \<open>json\<close> wherever it occurs in the response, not only in a
  code fence, so a configuration whose own content contains \<open>json\<close> is altered without
  any error before it is put into the template. Whatever stands around an occurrence
  of \<open>json\<close> in the response, the scan deletes that occurrence and cleans the text
  before it and the text after it; a response that contains \<open>json\<close> comes out at least
  four characters shorter, hence changed, and \<open>create_code_example\<close> returns the snippet
  built from the changed text.
\<close>

theorem strip_fences_deletes_json_everywhere:
  assumes "get_source svc connector (ext w) = (Inr config_spec, x)"
    and "chat_api svc ''gpt-4-turbo-preview''
           [\<lparr>role = ''system'', content = Some ''You are a helpful assistant.''\<rparr>,
            \<lparr>role = ''user'', content = Some (code_example_prompt config_spec)\<rparr>] x
         = (Inr (Some r), x')"
    and "r = a @ ''json'' @ b"
  shows "fst (create_code_example svc connector w) = Inr (snippet_text connector (strip_fences r))
    \<and> strip_fences r
       = replace (backtick @ backtick @ backtick) [] (replace ''json'' [] a @ replace ''json'' [] b)
    \<and> length (strip_fences r) + 4 \<le> length r
    \<and> strip_fences r \<noteq> r"
proof -
  have "fst (create_code_example svc connector w) = Inr (snippet_text connector (strip_fences r))"
    using create_code_example_returns [OF assms(1,2)] by simp
  moreover have "strip_fences r
       = replace (backtick @ backtick @ backtick) [] (replace ''json'' [] a @ replace ''json'' [] b)"
    by (simp only: assms(3) strip_fences_def replace_json_occurrence)
  moreover have "sublist ''json'' r"
    using assms(3) by (auto simp: sublist_def)
  then have len: "length (strip_fences r) + 4 \<le> length r"
    by (rule length_strip_fences)
  moreover from len have "strip_fences r \<noteq> r"
    by auto
  ultimately show ?thesis by blast
qed

theorem strip_fences_deletes_json_everywhere_witness:
  "fst (create_code_example (test_services (scripted [Inr (Some ''{path: data.json}'')]) (200, ''ok''))
          ''source-foo'' fresh_world)
     = Inr (snippet_text ''source-foo'' ''{path: data.}'')
   \<and> strip_fences ''{path: data.json}'' = ''{path: data.}''"
proof -
  let ?svc = "test_services (scripted [Inr (Some ''{path: data.json}'')]) (200, ''ok'')"
  have src: "get_source ?svc ''source-foo'' (ext fresh_world) = (Inr ''{}'', 0)"
    by (simp add: test_services_def fresh_world_def)
  have chat: "chat_api ?svc ''gpt-4-turbo-preview''
           [\<lparr>role = ''system'', content = Some ''You are a helpful assistant.''\<rparr>,
            \<lparr>role = ''user'', content = Some (code_example_prompt ''{}'')\<rparr>] 0
         = (Inr (Some ''{path: data.json}''), Suc 0)"
    by (simp add: test_services_def scripted_def)
  have split: "''{path: data.json}'' = ''{path: data.'' @ ''json'' @ ''}''"
    by simp
  have a: "replace ''json'' [] ''{path: data.'' = ''{path: data.''"
    by code_simp
  have b: "replace ''json'' [] ''}'' = ''}''"
    by code_simp
  have c: "replace (backtick @ backtick @ backtick) [] ''{path: data.}'' = ''{path: data.}''"
    by code_simp
  from strip_fences_deletes_json_everywhere [OF src chat split] a b c
  show ?thesis by simp
qed

section \<open>The chapter loop\<close>

lemma generate_blog_chapter_effect:
  assumes "generate_blog_chapter svc prompt history w = (r, w')"
  shows "chat_log w' = chat_log w @ [[system_turn] @ history @ [user_turn prompt]]"
    and "files w' = files w" and "http_log w' = http_log w" and "stdout w' = stdout w"
  using assms
  by (auto simp: generate_blog_chapter_def chat_completions_create_def system_turn_def
      user_turn_def split: prod.splits)

lemma generate_chapters_trace:
  assumes "generate_chapters svc ps h bc w = (Inr (h', bc'), w')"
  shows "\<exists>texts. length texts = length ps
     \<and> h' = h @ map assistant_turn texts
     \<and> chat_log w' = chat_log w @ expected_requests h (map snd ps) texts
     \<and> (distinct (map fst ps) \<longrightarrow>
          (\<forall>k<length ps. bc' (fst (ps ! k)) = Some (texts ! k))
          \<and> (\<forall>c. c \<notin> fst ` set ps \<longrightarrow> bc' c = bc c))"
  using assms
proof (induction ps arbitrary: h bc w)
  case Nil
  then show ?case by simp
next
  case (Cons cp ps)
  obtain c p where cp: "cp = (c, p)" by (cases cp)
  obtain r w1 where step: "generate_blog_chapter svc p h w = (r, w1)"
    by (cases "generate_blog_chapter svc p h w")
  from Cons.prems cp step obtain tx where r: "r = Inr tx"
    by (cases r) auto
  from Cons.prems cp step r
  have rest: "generate_chapters svc ps (h @ [\<lparr>role = ''assistant'', content = tx\<rparr>])
                (bc(c \<mapsto> tx)) w1 = (Inr (h', bc'), w')"
    by simp
  from Cons.IH [OF rest] obtain texts where t:
    "length texts = length ps"
    "h' = (h @ [\<lparr>role = ''assistant'', content = tx\<rparr>]) @ map assistant_turn texts"
    "chat_log w' = chat_log w1
       @ expected_requests (h @ [\<lparr>role = ''assistant'', content = tx\<rparr>]) (map snd ps) texts"
    "distinct (map fst ps) \<longrightarrow>
       (\<forall>k<length ps. bc' (fst (ps ! k)) = Some (texts ! k))
       \<and> (\<forall>c'. c' \<notin> fst ` set ps \<longrightarrow> bc' c' = (bc(c \<mapsto> tx)) c')"
    by blast
  have log: "chat_log w1 = chat_log w @ [[system_turn] @ h @ [user_turn p]]"
    using step by (rule generate_blog_chapter_effect)
  have "length (tx # texts) = length (cp # ps)" using t(1) by simp
  moreover have "h' = h @ map assistant_turn (tx # texts)"
    using t(2) by (simp add: assistant_turn_def)
  moreover have "chat_log w' = chat_log w @ expected_requests h (map snd (cp # ps)) (tx # texts)"
    using t(3) log cp by (simp add: assistant_turn_def)
  moreover have "distinct (map fst (cp # ps)) \<longrightarrow>
          (\<forall>k<length (cp # ps). bc' (fst ((cp # ps) ! k)) = Some ((tx # texts) ! k))
          \<and> (\<forall>c'. c' \<notin> fst ` set (cp # ps) \<longrightarrow> bc' c' = bc c')"
  proof
    assume d: "distinct (map fst (cp # ps))"
    then have dps: "distinct (map fst ps)" and cfresh: "c \<notin> fst ` set ps"
      using cp by auto
    from t(4) dps have a: "\<forall>k<length ps. bc' (fst (ps ! k)) = Some (texts ! k)"
      and b: "\<forall>c'. c' \<notin> fst ` set ps \<longrightarrow> bc' c' = (bc(c \<mapsto> tx)) c'"
      by blast+
    have "bc' c = Some tx" using b cfresh by simp
    then have "\<forall>k<length (cp # ps). bc' (fst ((cp # ps) ! k)) = Some ((tx # texts) ! k)"
      using a cp by (auto simp: nth_Cons split: nat.splits)
    moreover have "\<forall>c'. c' \<notin> fst ` set (cp # ps) \<longrightarrow> bc' c' = bc c'"
      using b cp by auto
    ultimately show "(\<forall>k<length (cp # ps). bc' (fst ((cp # ps) ! k)) = Some ((tx # texts) ! k))
          \<and> (\<forall>c'. c' \<notin> fst ` set (cp # ps) \<longrightarrow> bc' c' = bc c')"
      by blast
  qed
  ultimately show ?case by blast
qed

lemma expected_requests_length:
  "length texts = length prompts \<Longrightarrow> length (expected_requests h prompts texts) = length prompts"
  by (induction h prompts texts rule: expected_requests.induct) auto

lemma expected_requests_nth:
  "length texts = length prompts \<Longrightarrow> k < length prompts \<Longrightarrow>
   expected_requests h prompts texts ! k
     = [system_turn] @ h @ map assistant_turn (take k texts) @ [user_turn (prompts ! k)]"
proof (induction h prompts texts arbitrary: k rule: expected_requests.induct)
  case (1 history prompt prompts tx texts)
  then show ?case by (cases k) auto
qed auto

lemma generate_chapters_requests:
  assumes "generate_chapters svc ps h bc w = (r, w')"
  shows "\<exists>reqs. chat_log w' = chat_log w @ reqs
     \<and> prefix (map last reqs) (map (user_turn \<circ> snd) ps)
     \<and> ((\<exists>v. r = Inr v) \<longrightarrow> length reqs = length ps)
     \<and> files w' = files w \<and> http_log w' = http_log w \<and> stdout w' = stdout w"
  using assms
proof (induction ps arbitrary: h bc w)
  case Nil
  then show ?case by simp
next
  case (Cons cp ps)
  obtain c p where cp: "cp = (c, p)" by (cases cp)
  obtain r1 w1 where step: "generate_blog_chapter svc p h w = (r1, w1)"
    by (cases "generate_blog_chapter svc p h w")
  note eff = generate_blog_chapter_effect [OF step]
  show ?case
  proof (cases r1)
    case (Inl e)
    with Cons.prems cp step have "r = Inl e" "w' = w1" by simp_all
    then have "chat_log w' = chat_log w @ [[system_turn] @ h @ [user_turn p]]"
      "prefix (map last [[system_turn] @ h @ [user_turn p]]) (map (user_turn \<circ> snd) (cp # ps))"
      "(\<exists>v. r = Inr v) \<longrightarrow> length [[system_turn] @ h @ [user_turn p]] = length (cp # ps)"
      "files w' = files w" "http_log w' = http_log w" "stdout w' = stdout w"
      using eff cp by simp_all
    then show ?thesis by blast
  next
    case (Inr tx)
    with Cons.prems cp step
    have rest: "generate_chapters svc ps (h @ [\<lparr>role = ''assistant'', content = tx\<rparr>])
                (bc(c \<mapsto> tx)) w1 = (r, w')"
      by simp
    from Cons.IH [OF rest] obtain reqs where q:
      "chat_log w' = chat_log w1 @ reqs"
      "prefix (map last reqs) (map (user_turn \<circ> snd) ps)"
      "(\<exists>v. r = Inr v) \<longrightarrow> length reqs = length ps"
      "files w' = files w1" "http_log w' = http_log w1" "stdout w' = stdout w1"
      by blast
    let ?reqs = "([system_turn] @ h @ [user_turn p]) # reqs"
    have "chat_log w' = chat_log w @ ?reqs" using q(1) eff(1) by simp
    moreover have "prefix (map last ?reqs) (map (user_turn \<circ> snd) (cp # ps))"
      using q(2) cp by simp
    moreover have "(\<exists>v. r = Inr v) \<longrightarrow> length ?reqs = length (cp # ps)"
      using q(3) by simp
    moreover have "files w' = files w" "http_log w' = http_log w" "stdout w' = stdout w"
      using q(4,5,6) eff by simp_all
    ultimately show ?thesis by blast
  qed
qed

lemma build_blog_post_loop:
  assumes "build_blog_post svc ps h bc cs w = (r, w')"
  shows "\<exists>r0. generate_chapters svc ps h bc w = (r0, w') \<and> ((\<exists>v. r = Inr v) \<longrightarrow> (\<exists>v. r0 = Inr v))"
  using assms by (auto simp: build_blog_post_def split: prod.splits sum.splits)

lemma prefix_same_length: "prefix xs ys \<Longrightarrow> length xs = length ys \<Longrightarrow> xs = ys"
  by (auto simp: prefix_def)

subsection \<open>A concrete run\<close>

lemma strip_fences_braces: "strip_fences ''{}'' = ''{}''"
  by code_simp

lemma demo_create_code_example:
  "create_code_example (demo_services response) (formatted demo_source) fresh_world
     = (Inr demo_code_example, demo_world_after_example)"
  by (simp add: create_code_example_def chat_completions_create_def demo_services_def
      test_services_def scripted_def demo_answers_def demo_texts_def fresh_world_def
      demo_source_def demo_code_example_def demo_world_after_example_def strip_fences_braces)

lemma demo_generate_chapters:
  "generate_chapters (demo_services response) (chapter_prompts demo_source demo_code_example)
     [] Map.empty demo_world_after_example
     = (Inr (demo_history, demo_chapters), demo_world_after_chapters)"
  by (simp add: chapter_prompts_def generate_blog_chapter_def chat_completions_create_def
      demo_services_def test_services_def scripted_def demo_answers_def demo_texts_def
      demo_world_after_example_def demo_world_after_chapters_def demo_history_def demo_chapters_def
      assistant_turn_def user_turn_def system_turn_def)

lemma demo_build_blog_post:
  "build_blog_post (demo_services response) (chapter_prompts demo_source demo_code_example)
     [] Map.empty ctas demo_world_after_example
     = (Inr (demo_blog_post, demo_history, demo_chapters), demo_world_after_chapters)"
  by (simp add: build_blog_post_def demo_generate_chapters assemble_blog_post_def getitem_def
      str_add_def str_operand_def demo_chapters_def ctas_def demo_blog_post_def)

lemma demo_download_post:
  "download_post (demo_services response) demo_source demo_blog_post demo_world_after_chapters
     = (Inr (), demo_world_after_download)"
  by (simp add: download_post_def demo_services_def test_services_def demo_source_def
      demo_world_after_download_def demo_world_after_chapters_def demo_world_after_example_def)

subsection \<open>Claim C3\<close>

text \<open>
  C3: after the chapter loop has produced \<open>N\<close> chapters (for every \<open>N\<close>, in particular
  the first \<open>N\<close> of the five prompts of a connector with \<open>N\<close> from 1 to 5), the
  conversation history is the history it started from followed by exactly \<open>N\<close>
  assistant turns, one per chapter in call order, so its turns of any other role are
  those of the original history; the request sent for chapter \<open>k\<close> carries the
  assistant turns of all chapters before it, that is, each text is appended before the
  next prompt is issued. The text of each chapter is also the one stored under its key.
  The prompts themselves are sent with the request and are not appended to the history.
\<close>

theorem generate_chapters_history:
  assumes "generate_chapters svc prompts history blog_chapters w
             = (Inr (history', blog_chapters'), w')"
  shows "\<exists>texts. length texts = length prompts
     \<and> history' = history @ map assistant_turn texts
     \<and> filter (\<lambda>m. role m \<noteq> ''assistant'') history' = filter (\<lambda>m. role m \<noteq> ''assistant'') history
     \<and> (\<forall>k<length prompts.
           chat_log w' ! (length (chat_log w) + k)
             = [system_turn] @ history @ map assistant_turn (take k texts)
                 @ [user_turn (snd (prompts ! k))])
     \<and> (distinct (map fst prompts) \<longrightarrow>
           (\<forall>k<length prompts. blog_chapters' (fst (prompts ! k)) = Some (texts ! k)))"
proof -
  from generate_chapters_trace [OF assms] obtain texts where t:
    "length texts = length prompts"
    "history' = history @ map assistant_turn texts"
    "chat_log w' = chat_log w @ expected_requests history (map snd prompts) texts"
    "distinct (map fst prompts) \<longrightarrow>
       (\<forall>k<length prompts. blog_chapters' (fst (prompts ! k)) = Some (texts ! k))
       \<and> (\<forall>c. c \<notin> fst ` set prompts \<longrightarrow> blog_chapters' c = blog_chapters c)"
    by blast
  have "filter (\<lambda>m. role m \<noteq> ''assistant'') (map assistant_turn texts) = []"
    by (induction texts) (simp_all add: assistant_turn_def)
  then have "filter (\<lambda>m. role m \<noteq> ''assistant'') history'
      = filter (\<lambda>m. role m \<noteq> ''assistant'') history"
    using t(2) by simp
  moreover have "\<forall>k<length prompts.
           chat_log w' ! (length (chat_log w) + k)
             = [system_turn] @ history @ map assistant_turn (take k texts)
                 @ [user_turn (snd (prompts ! k))]"
    using t(1,3) by (simp add: expected_requests_nth)
  ultimately show ?thesis using t(1,2,4) by blast
qed

theorem generate_chapters_history_witness:
  "generate_chapters (demo_services (200, ''ok''))
       (chapter_prompts demo_source demo_code_example) [] Map.empty demo_world_after_example
     = (Inr (demo_history, demo_chapters), demo_world_after_chapters)
   \<and> (\<exists>texts. length texts = length (chapter_prompts demo_source demo_code_example)
     \<and> demo_history = [] @ map assistant_turn texts
     \<and> filter (\<lambda>m. role m \<noteq> ''assistant'') demo_history = filter (\<lambda>m. role m \<noteq> ''assistant'') []
     \<and> (\<forall>k<length (chapter_prompts demo_source demo_code_example).
           chat_log demo_world_after_chapters ! (length (chat_log demo_world_after_example) + k)
             = [system_turn] @ [] @ map assistant_turn (take k texts)
                 @ [user_turn (snd (chapter_prompts demo_source demo_code_example ! k))])
     \<and> (distinct (map fst (chapter_prompts demo_source demo_code_example)) \<longrightarrow>
           (\<forall>k<length (chapter_prompts demo_source demo_code_example).
              demo_chapters (fst (chapter_prompts demo_source demo_code_example ! k))
                = Some (texts ! k))))"
  using demo_generate_chapters [of "(200, ''ok'')"]
    generate_chapters_history [OF demo_generate_chapters [of "(200, ''ok'')"]]
  by (rule conjI)

subsection \<open>Claim C1\<close>

text \<open>
  C1: whatever the order in which the chapters were generated (the prompts are an
  arbitrary list), once the loop has filled the dictionary with five chapter texts,
  \<open>build_blog_post\<close> returns the introduction, chapter 1, chapter 2, the documentation
  call to action, chapter 3, the conclusion and the newsletter call to action, in that
  order, with one blank line (two line feeds) between consecutive sections.
\<close>

theorem build_blog_post_order:
  assumes "generate_chapters svc prompts history blog_chapters w
             = (Inr (history', chapters), w')"
    and "chapters ''introduction'' = Some (Some introduction)"
    and "chapters ''chapter_1'' = Some (Some chapter_1)"
    and "chapters ''chapter_2'' = Some (Some chapter_2)"
    and "chapters ''chapter_3'' = Some (Some chapter_3)"
    and "chapters ''conclusion'' = Some (Some conclusion)"
    and "cs ''docs_quickstarts_cta'' = Some (Some docs_quickstarts_cta)"
    and "cs ''slack_newsletter_cta'' = Some (Some slack_newsletter_cta)"
  shows "build_blog_post svc prompts history blog_chapters cs w
     = (Inr (introduction @ nl @ nl @ chapter_1 @ nl @ nl @ chapter_2 @ nl @ nl
              @ docs_quickstarts_cta @ nl @ nl @ chapter_3 @ nl @ nl @ conclusion @ nl @ nl
              @ slack_newsletter_cta,
             history', chapters), w')"
  using assms
  by (simp add: build_blog_post_def assemble_blog_post_def getitem_def str_add_def str_operand_def)

theorem build_blog_post_order_witness:
  "build_blog_post (demo_services (200, ''ok''))
       (chapter_prompts demo_source demo_code_example) [] Map.empty ctas demo_world_after_example
     = (Inr (''five'' @ nl @ nl @ ''one'' @ nl @ nl @ ''two'' @ nl @ nl
              @ docs_quickstarts_cta @ nl @ nl @ ''three'' @ nl @ nl @ ''four'' @ nl @ nl
              @ slack_newsletter_cta,
             demo_history, demo_chapters), demo_world_after_chapters)"
  by (rule build_blog_post_order [OF demo_generate_chapters [of "(200, ''ok'')"]])
    (simp_all add: demo_chapters_def ctas_def)

subsection \<open>Claim C5\<close>

text \<open>
  C5: the ordered dictionary of prompts has the keys \<open>chapter_1\<close>, \<open>chapter_2\<close>,
  \<open>chapter_3\<close>, \<open>conclusion\<close>, \<open>introduction\<close> in this order, and \<open>build_blog_post\<close>
  sends its requests in this order: the prompts of the requests it has added to the log
  are an initial segment of that list of five, and all five when it returns a post. The
  introduction is asked for last, although the document starts with it.
\<close>

theorem chapter_prompts_issued_in_order:
  assumes "build_blog_post svc (chapter_prompts source code_example) history blog_chapters cs w
             = (r, w')"
  shows "map fst (chapter_prompts source code_example)
       = [''chapter_1'', ''chapter_2'', ''chapter_3'', ''conclusion'', ''introduction'']
     \<and> (\<exists>reqs. chat_log w' = chat_log w @ reqs
          \<and> prefix (map last reqs)
               (map user_turn
                  [chapter_1_prompt (original source),
                   chapter_2_prompt (original source) code_example,
                   chapter_3_prompt (original source),
                   conclusion_prompt,
                   introduction_prompt])
          \<and> ((\<exists>v. r = Inr v) \<longrightarrow>
               map last reqs = map user_turn
                  [chapter_1_prompt (original source),
                   chapter_2_prompt (original source) code_example,
                   chapter_3_prompt (original source),
                   conclusion_prompt,
                   introduction_prompt]))"
proof -
  let ?ps = "chapter_prompts source code_example"
  let ?us = "map user_turn
                  [chapter_1_prompt (original source),
                   chapter_2_prompt (original source) code_example,
                   chapter_3_prompt (original source),
                   conclusion_prompt,
                   introduction_prompt]"
  have us: "map (user_turn \<circ> snd) ?ps = ?us"
    unfolding chapter_prompts_def by simp
  have keys: "map fst ?ps
       = [''chapter_1'', ''chapter_2'', ''chapter_3'', ''conclusion'', ''introduction'']"
    unfolding chapter_prompts_def by simp
  from build_blog_post_loop [OF assms] obtain r0 where
    loop: "generate_chapters svc ?ps history blog_chapters w = (r0, w')"
    and ok: "(\<exists>v. r = Inr v) \<longrightarrow> (\<exists>v. r0 = Inr v)"
    by auto
  from generate_chapters_requests [OF loop] obtain reqs where q:
    "chat_log w' = chat_log w @ reqs"
    "prefix (map last reqs) (map (user_turn \<circ> snd) ?ps)"
    "(\<exists>v. r0 = Inr v) \<longrightarrow> length reqs = length ?ps"
    by auto
  have pre: "prefix (map last reqs) ?us"
    using q(2) unfolding us .
  have full: "(\<exists>v. r = Inr v) \<longrightarrow> map last reqs = ?us"
  proof
    assume "\<exists>v. r = Inr v"
    with ok have "\<exists>v. r0 = Inr v" by simp
    with q(3) have "length reqs = length ?ps" by simp
    then have "length (map last reqs) = length ?us"
      unfolding chapter_prompts_def by simp
    with pre show "map last reqs = ?us" by (rule prefix_same_length)
  qed
  from q(1) pre full have "\<exists>reqs. chat_log w' = chat_log w @ reqs
          \<and> prefix (map last reqs) ?us \<and> ((\<exists>v. r = Inr v) \<longrightarrow> map last reqs = ?us)"
    by (intro exI [of _ reqs] conjI)
  with keys show ?thesis by (rule conjI)
qed

theorem chapter_prompts_issued_in_order_witness:
  "map fst (chapter_prompts demo_source demo_code_example)
       = [''chapter_1'', ''chapter_2'', ''chapter_3'', ''conclusion'', ''introduction'']
     \<and> (\<exists>reqs. chat_log demo_world_after_chapters = chat_log demo_world_after_example @ reqs
          \<and> prefix (map last reqs)
               (map user_turn
                  [chapter_1_prompt (original demo_source),
                   chapter_2_prompt (original demo_source) demo_code_example,
                   chapter_3_prompt (original demo_source),
                   conclusion_prompt,
                   introduction_prompt])
          \<and> ((\<exists>v. (Inr (demo_blog_post, demo_history, demo_chapters)
                      :: exn + string \<times> message list \<times> (string \<rightharpoonup> string option)) = Inr v) \<longrightarrow>
               map last reqs = map user_turn
                  [chapter_1_prompt (original demo_source),
                   chapter_2_prompt (original demo_source) demo_code_example,
                   chapter_3_prompt (original demo_source),
                   conclusion_prompt,
                   introduction_prompt]))"
  by (rule chapter_prompts_issued_in_order [OF demo_build_blog_post [of "(200, ''ok'')"]])

section \<open>Effects of the stages\<close>




lemma upload_post_to_webflow_returns:
  assumes "requests_post svc (upload_request env s body) (ext w) = (Inr (status_code, response_text), x)"
  shows "upload_post_to_webflow svc env s body w =
     (Inr (), w\<lparr>ext := x, http_log := http_log w @ [upload_request env s body],
                stdout := stdout w @ [upload_message s status_code response_text]\<rparr>)"
  using assms by (simp add: upload_post_to_webflow_def Let_def)

lemma slug_of_upload_request:
  "slug (fieldData (req_json (upload_request env s body)))
     = replace ''source-'' [] (formatted s) @ ''-python''"
  by (simp add: upload_request_def Let_def)




lemma str_int_500: "str_int 500 = ''500''"
  by code_simp


section \<open>The publishers\<close>

subsection \<open>Claim C4\<close>

text \<open>
  C4: take a connector for which the post has been generated and written, and let the
  CMS answer the upload with any status code and body. Then \<open>upload_post_to_webflow\<close>
  returns normally, having printed one line, and the catalog loop goes on with the
  remaining connectors. The line is the success line if and only if the status code is
  200, 201 or 202; for every other code it is the failure line, which carries the
  status code and the response body.
\<close>

theorem upload_classifies_status:
  assumes "create_code_example svc (formatted s) w = (Inr code_example, w1)"
    and "build_blog_post svc (chapter_prompts s code_example) [] Map.empty ctas w1
           = (Inr (blog_post, hb), w2)"
    and "download_post svc s blog_post w2 = (Inr (), w3)"
    and "requests_post svc (upload_request env s blog_post) (ext w3)
           = (Inr (status_code, response_text), x)"
  shows "upload_post_to_webflow svc env s blog_post w3 =
       (Inr (), w3\<lparr>ext := x, http_log := http_log w3 @ [upload_request env s blog_post],
                  stdout := stdout w3 @ [upload_message s status_code response_text]\<rparr>)
     \<and> main_loop svc env (s # rest) w =
         main_loop svc env rest
           (w3\<lparr>ext := x, http_log := http_log w3 @ [upload_request env s blog_post],
               stdout := stdout w3 @ [upload_message s status_code response_text]\<rparr>)
     \<and> ((upload_message s status_code response_text
            = ''Blog post successfully uploaded for '' @ original s @ ''!'')
          = (status_code \<in> {200, 201, 202}))
     \<and> (status_code \<notin> {200, 201, 202} \<longrightarrow>
          upload_message s status_code response_text
            = ''Failed to upload blog post '' @ original s @ ''. Status code: ''
                @ str_int status_code @ '', Response: '' @ response_text)"
proof -
  note up = upload_post_to_webflow_returns [OF assms(4)]
  have "process_source svc env s w =
       (Inr (), w3\<lparr>ext := x, http_log := http_log w3 @ [upload_request env s blog_post],
                  stdout := stdout w3 @ [upload_message s status_code response_text]\<rparr>)"
    using assms(1,2,3) up by (cases hb) (simp add: process_source_def)
  then have "main_loop svc env (s # rest) w =
         main_loop svc env rest
           (w3\<lparr>ext := x, http_log := http_log w3 @ [upload_request env s blog_post],
               stdout := stdout w3 @ [upload_message s status_code response_text]\<rparr>)"
    by simp
  moreover have "(upload_message s status_code response_text
            = ''Blog post successfully uploaded for '' @ original s @ ''!'')
          = (status_code \<in> {200, 201, 202})"
    by (simp add: upload_message_def)
  moreover have "status_code \<notin> {200, 201, 202} \<longrightarrow>
          upload_message s status_code response_text
            = ''Failed to upload blog post '' @ original s @ ''. Status code: ''
                @ str_int status_code @ '', Response: '' @ response_text"
    by (simp add: upload_message_def)
  ultimately show ?thesis using up by simp
qed

theorem upload_classifies_status_witness:
  "main_loop (demo_services (500, ''Internal Server Error'')) demo_env [demo_source] fresh_world
     = (Inr (), demo_world_after_upload demo_env (500, ''Internal Server Error''))
   \<and> last (stdout (demo_world_after_upload demo_env (500, ''Internal Server Error'')))
       = ''Failed to upload blog post Foo. Status code: 500, Response: Internal Server Error''"
proof -
  let ?svc = "demo_services (500, ''Internal Server Error'')"
  have resp: "requests_post ?svc (upload_request demo_env demo_source demo_blog_post)
                (ext demo_world_after_download) = (Inr (500, ''Internal Server Error''), 6)"
    by (simp add: demo_services_def test_services_def demo_world_after_download_def
        demo_world_after_chapters_def)
  have w: "demo_world_after_download\<lparr>ext := 6,
             http_log := http_log demo_world_after_download
               @ [upload_request demo_env demo_source demo_blog_post],
             stdout := stdout demo_world_after_download
               @ [upload_message demo_source 500 ''Internal Server Error'']\<rparr>
           = demo_world_after_upload demo_env (500, ''Internal Server Error'')"
    by (simp add: demo_world_after_upload_def demo_world_after_download_def
        demo_world_after_chapters_def demo_world_after_example_def)
  have o: "original demo_source = ''Foo''"
    by (simp add: demo_source_def)
  from upload_classifies_status [OF demo_create_code_example demo_build_blog_post
      demo_download_post resp, of "[]"]
  show ?thesis
    by (simp add: w o str_int_500 demo_world_after_upload_def)
qed

subsection \<open>Claim C6\<close>

text \<open>
  C6 says that the slug is the canonical identifier with the prefix \<open>source-\<close> stripped,
  so that \<open>source-foo\<close> yields \<open>foo\<close>. The program appends \<open>-python\<close> to the stripped
  identifier: the slug of \<open>source-foo\<close> is \<open>foo-python\<close>.
\<close>

theorem slug_is_not_the_bare_name:
  "slug (fieldData (req_json (upload_request Map.empty
      \<lparr>original = ''Foo'', formatted = ''source-foo''\<rparr> ''body''))) = ''foo-python''
   \<and> slug (fieldData (req_json (upload_request Map.empty
      \<lparr>original = ''Foo'', formatted = ''source-foo''\<rparr> ''body''))) \<noteq> ''foo''"
proof -
  have "replace ''source-'' [] ''source-foo'' = ''foo''"
    by code_simp
  then show ?thesis
    by (simp add: slug_of_upload_request)
qed

text \<open>
  C6 as amended: for a canonical identifier that is \<open>source-\<close> followed by a name in
  which \<open>source-\<close> does not occur again, the slug in the CMS payload is that name
  followed by \<open>-python\<close>.
\<close>

theorem slug_strips_prefix_and_adds_suffix:
  assumes "formatted s = ''source-'' @ x" and "\<not> sublist ''source-'' x"
  shows "slug (fieldData (req_json (upload_request env s body))) = x @ ''-python''"
proof -
  have ne: "''source-'' \<noteq> []" by simp
  have "replace ''source-'' [] (''source-'' @ x) = replace ''source-'' [] x"
    using ne by (rule replace_del_hit)
  also have "\<dots> = x"
    using ne assms(2) by (rule replace_del_absent)
  finally show ?thesis
    by (simp only: slug_of_upload_request assms(1))
qed

theorem slug_strips_prefix_and_adds_suffix_witness:
  "slug (fieldData (req_json (upload_request Map.empty
      \<lparr>original = ''Foo'', formatted = ''source-foo''\<rparr> ''body''))) = ''foo'' @ ''-python''"
proof -
  have a: "formatted \<lparr>original = ''Foo'', formatted = ''source-foo''\<rparr> = ''source-'' @ ''foo''"
    by simp
  have b: "\<not> sublist ''source-'' ''foo''"
    by code_simp
  show ?thesis
    by (rule slug_strips_prefix_and_adds_suffix [OF a b])
qed

subsection \<open>Claim C8\<close>

text \<open>
  C8: the local writer writes the post to \<open>./blogs/\<close> followed by the canonical
  identifier and \<open>.md\<close>, a path that depends on nothing else; when the file can be
  opened and written, a second run for the same connector leaves the second text as
  the content of that file, not the first text followed by the second, and touches no
  other file.
\<close>

theorem download_post_overwrites:
  assumes "open_w svc (''./blogs/'' @ formatted s @ ''.md'') (ext w) = (None, x1)"
    and "file_write svc (''./blogs/'' @ formatted s @ ''.md'') body1 x1 = (None, x2)"
    and "open_w svc (''./blogs/'' @ formatted s @ ''.md'') x2 = (None, x3)"
    and "file_write svc (''./blogs/'' @ formatted s @ ''.md'') body2 x3 = (None, x4)"
  shows "\<exists>w1 w2. download_post svc s body1 w = (Inr (), w1)
     \<and> files w1 = (files w)(''./blogs/'' @ formatted s @ ''.md'' \<mapsto> body1)
     \<and> download_post svc s body2 w1 = (Inr (), w2)
     \<and> files w2 = (files w)(''./blogs/'' @ formatted s @ ''.md'' \<mapsto> body2)"
proof -
  let ?path = "''./blogs/'' @ formatted s @ ''.md''"
  let ?w1 = "w\<lparr>ext := x2, files := (files w)(?path \<mapsto> body1),
                 stdout := stdout w @ [''File saved as '' @ ?path @ ''!'']\<rparr>"
  let ?w2 = "?w1\<lparr>ext := x4, files := (files ?w1)(?path \<mapsto> body2),
                 stdout := stdout ?w1 @ [''File saved as '' @ ?path @ ''!'']\<rparr>"
  have 1: "download_post svc s body1 w = (Inr (), ?w1)"
    using assms(1,2) by (simp add: download_post_def Let_def)
  have 2: "download_post svc s body2 ?w1 = (Inr (), ?w2)"
    using assms(3,4) by (simp add: download_post_def Let_def)
  have "files ?w1 = (files w)(?path \<mapsto> body1)" by simp
  moreover have "files ?w2 = (files w)(?path \<mapsto> body2)" by simp
  ultimately show ?thesis using 1 2 by blast
qed

theorem download_post_overwrites_witness:
  "(\<exists>w1 w2. download_post (demo_services (200, ''ok'')) demo_source ''first text'' fresh_world
         = (Inr (), w1)
     \<and> files w1 = (files fresh_world)(''./blogs/'' @ formatted demo_source @ ''.md'' \<mapsto> ''first text'')
     \<and> download_post (demo_services (200, ''ok'')) demo_source ''second'' w1 = (Inr (), w2)
     \<and> files w2 = (files fresh_world)(''./blogs/'' @ formatted demo_source @ ''.md'' \<mapsto> ''second''))
   \<and> ''./blogs/'' @ formatted demo_source @ ''.md'' = ''./blogs/source-foo.md''"
proof -
  let ?svc = "demo_services (200, ''ok'')"
  let ?path = "''./blogs/'' @ formatted demo_source @ ''.md''"
  have a: "open_w ?svc ?path (ext fresh_world) = (None, 0)"
    by (simp add: demo_services_def test_services_def fresh_world_def)
  have b: "file_write ?svc ?path ''first text'' 0 = (None, 0)"
    by (simp add: demo_services_def test_services_def)
  have c: "open_w ?svc ?path 0 = (None, 0)"
    by (simp add: demo_services_def test_services_def)
  have d: "file_write ?svc ?path ''second'' 0 = (None, 0)"
    by (simp add: demo_services_def test_services_def)
  have "''./blogs/'' @ formatted demo_source @ ''.md'' = ''./blogs/source-foo.md''"
    by (simp add: demo_source_def)
  with download_post_overwrites [OF a b c d] show ?thesis
    by (rule conjI)
qed

section \<open>The catalog loop and the secrets\<close>

subsection \<open>Claim C9\<close>




subsection \<open>Claim C2\<close>




end
